theory Spec2Isabelle
  imports Main "HOL-Library.Word" "HOL-Library.Monad_Syntax"
begin

unbundle bit_operations_syntax

section \<open>Byte slices\<close>

text \<open>
  A Go \<^verbatim>\<open>[]byte\<close> is a window on a backing array. Seen from the slice's first byte,
  the array is the \<open>len\<close> visible bytes followed by the \<open>cap - len\<close> bytes of spare
  capacity; the spare bytes keep whatever was stored there before. The record holds both
  parts, so \<open>len \<le> cap\<close> holds by construction. Lengths are unbounded naturals: Go's
  \<^verbatim>\<open>int\<close> has 64 bits on amd64 and no buffer reaches that size.
\<close>

type_synonym byte = "8 word"

record slice =
  elems :: "byte list"
  spare :: "byte list"

definition slice_len :: "slice \<Rightarrow> nat" where
  "slice_len b = length (elems b)"

definition slice_cap :: "slice \<Rightarrow> nat" where
  "slice_cap b = length (elems b) + length (spare b)"

text \<open>The nil slice: no bytes, no capacity.\<close>

definition nil_slice :: slice where
  "nil_slice = \<lparr>elems = [], spare = []\<rparr>"

text \<open>\<^verbatim>\<open>make([]byte, n)\<close>: \<open>n\<close> zero bytes, length and capacity both \<open>n\<close>.\<close>

definition make_bytes :: "nat \<Rightarrow> slice" where
  "make_bytes n = \<lparr>elems = replicate n 0, spare = []\<rparr>"

text \<open>
  \<^verbatim>\<open>b[:k]\<close>: the same backing array with length \<open>k\<close>. Go panics when \<open>k\<close> is
  negative or exceeds the capacity; the panic is the value \<open>None\<close>.
\<close>

definition reslice :: "slice \<Rightarrow> int \<Rightarrow> slice option" where
  "reslice b k =
     (if k < 0 \<or> int (slice_cap b) < k then None
      else Some \<lparr>elems = take (nat k) (elems b @ spare b),
                 spare = drop (nat k) (elems b @ spare b)\<rparr>)"

text \<open>
  \<^verbatim>\<open>copy(dst, src)\<close>: overwrites the first \<open>min (len dst) (len src)\<close> bytes of
  \<open>dst\<close> and returns that count.
\<close>

definition copy_bytes :: "slice \<Rightarrow> byte list \<Rightarrow> slice \<times> nat" where
  "copy_bytes dst src =
     (let n = min (slice_len dst) (length src)
      in (dst\<lparr>elems := take n src @ drop n (elems dst)\<rparr>, n))"

text \<open>
  A store of the bytes \<open>bs\<close> at offset \<open>n\<close> of the slice, as in \<^verbatim>\<open>o[n] = x\<close>,
  in a helper called on \<^verbatim>\<open>o[n:]\<close>, or through \<^verbatim>\<open>unsafe.Pointer(&o[n])\<close>. A store
  that does not fit in the visible bytes is \<open>None\<close>: an index panic for the checked
  stores, a write outside the region the caller reserved for the unchecked ones.
\<close>

definition put :: "slice \<Rightarrow> nat \<Rightarrow> byte list \<Rightarrow> slice option" where
  "put ob n bs =
     (if n + length bs \<le> slice_len ob
      then Some (ob\<lparr>elems := take n (elems ob) @ bs @ drop (n + length bs) (elems ob)\<rparr>)
      else None)"

text \<open>
  \<^verbatim>\<open>append(b, x)\<close> for one byte. With spare capacity the byte is stored in place.
  Without, the Go runtime allocates a new zeroed array; how large is the runtime's
  choice, so the capacity it picks for a required length is the parameter \<open>grow\<close>
  (a choice below the required length leaves no spare capacity).
\<close>

definition append_byte :: "(nat \<Rightarrow> nat) \<Rightarrow> slice \<Rightarrow> byte \<Rightarrow> slice" where
  "append_byte grow b x =
     (case spare b of
        [] \<Rightarrow> \<lparr>elems = elems b @ [x],
               spare = replicate (grow (slice_len b + 1) - (slice_len b + 1)) 0\<rparr>
      | y # ys \<Rightarrow> \<lparr>elems = elems b @ [x], spare = ys\<rparr>)"

section \<open>ensure\<close>

text \<open>
  \<^verbatim>\<open>
  func ensure(b []byte, sz int) ([]byte, int) {
      l := len(b)
      c := cap(b)
      if c-l < sz {
          o := make([]byte, (2*c)+sz)
          n := copy(o, b)
          return o[:n+sz], n
      }
      return b[:l+sz], l
  }
  \<close>
\<close>

definition ensure :: "slice \<Rightarrow> int \<Rightarrow> (slice \<times> nat) option" where
  "ensure b sz =
     (let l = slice_len b; c = slice_cap b in
      if int c - int l < sz then
        (let ob = make_bytes (nat (2 * int c + sz));
             (ob', n) = copy_bytes ob (elems b)
         in map_option (\<lambda>r. (r, n)) (reslice ob' (int n + sz)))
      else map_option (\<lambda>r. (r, l)) (reslice b (int l + sz)))"

section \<open>The wire grammar\<close>

text \<open>
  Modelled from the spec: the tag bytes of the wire grammar (section 6 of the
  specification, a MessagePack-style grammar). The constants are declared in a file of
  the package that is not part of the sources at hand; their values are the ones of the
  MessagePack grammar, which the scenarios of the specification use (the int16 tag
  \<open>0xd1\<close>, the fixstr tag \<open>0xa0\<close>).
\<close>

definition mnil :: byte where "mnil = 0xc0"
definition mfalse :: byte where "mfalse = 0xc2"
definition mtrue :: byte where "mtrue = 0xc3"
definition mbin8 :: byte where "mbin8 = 0xc4"
definition mbin16 :: byte where "mbin16 = 0xc5"
definition mbin32 :: byte where "mbin32 = 0xc6"
definition mext8 :: byte where "mext8 = 0xc7"
definition mfloat32 :: byte where "mfloat32 = 0xca"
definition mfloat64 :: byte where "mfloat64 = 0xcb"
definition muint8 :: byte where "muint8 = 0xcc"
definition muint16 :: byte where "muint16 = 0xcd"
definition muint32 :: byte where "muint32 = 0xce"
definition muint64 :: byte where "muint64 = 0xcf"
definition mint8 :: byte where "mint8 = 0xd0"
definition mint16 :: byte where "mint16 = 0xd1"
definition mint32 :: byte where "mint32 = 0xd2"
definition mint64 :: byte where "mint64 = 0xd3"
definition mfixext8 :: byte where "mfixext8 = 0xd7"
definition mfixext16 :: byte where "mfixext16 = 0xd8"
definition mstr8 :: byte where "mstr8 = 0xd9"
definition mstr16 :: byte where "mstr16 = 0xda"
definition mstr32 :: byte where "mstr32 = 0xdb"
definition marray16 :: byte where "marray16 = 0xdc"
definition marray32 :: byte where "marray32 = 0xdd"
definition mmap16 :: byte where "mmap16 = 0xde"
definition mmap32 :: byte where "mmap32 = 0xdf"
definition mfixmap :: byte where "mfixmap = 0x80"
definition mfixarray :: byte where "mfixarray = 0x90"
definition mfixstr :: byte where "mfixstr = 0xa0"
definition mnfixint :: byte where "mnfixint = 0xe0"

text \<open>
  Modelled from the spec: the extension type codes (the type code registry of section 3)
  and the encoded sizes of the fixed-layout values (section 4.2: floats are a tag and 4
  or 8 bytes; section 4.4: a complex number is a tag, a type code and two floats, a
  timestamp is a tag, a length byte, a type code and 12 bytes). They are declared
  outside the sources at hand.
\<close>

definition Complex64Extension :: byte where "Complex64Extension = 3"
definition Complex128Extension :: byte where "Complex128Extension = 4"
definition TimeExtension :: byte where "TimeExtension = 5"
definition Float32Size :: int where "Float32Size = 5"
definition Float64Size :: int where "Float64Size = 9"
definition Complex64Size :: int where "Complex64Size = 10"
definition Complex128Size :: int where "Complex128Size = 18"
definition TimeSize :: int where "TimeSize = 15"

subsection \<open>Big-endian payloads\<close>

definition be16 :: "16 word \<Rightarrow> byte list" where
  "be16 w = [ucast (drop_bit 8 w), ucast w]"

definition be32 :: "32 word \<Rightarrow> byte list" where
  "be32 w = [ucast (drop_bit 24 w), ucast (drop_bit 16 w), ucast (drop_bit 8 w), ucast w]"

definition be64 :: "64 word \<Rightarrow> byte list" where
  "be64 w = [ucast (drop_bit 56 w), ucast (drop_bit 48 w), ucast (drop_bit 40 w),
             ucast (drop_bit 32 w), ucast (drop_bit 24 w), ucast (drop_bit 16 w),
             ucast (drop_bit 8 w), ucast w]"

subsection \<open>The helpers that store one tagged value\<close>

text \<open>
  Modelled from the spec: \<^verbatim>\<open>wfixint\<close> and \<^verbatim>\<open>wnfixint\<close>, the one-byte fixint
  forms (section 4.2: the positive fixint embeds the value in the tag's low bits; the
  negative fixint is the value's byte under the negative fixint tag). Neither function is
  in the sources at hand.
\<close>

definition wfixint :: "byte \<Rightarrow> byte" where
  "wfixint u = u AND 0x7f"

definition wnfixint :: "byte \<Rightarrow> byte" where
  "wnfixint i = i OR mnfixint"

text \<open>
  Modelled from the spec: the stores of a tag and a big-endian payload (section 4.2:
  "tag + big-endian payload"), \<^verbatim>\<open>putMint8\<close> to \<^verbatim>\<open>putMuint64\<close>,
  \<^verbatim>\<open>prefixu32\<close> and \<^verbatim>\<open>prefixu64\<close>. The source calls each on \<^verbatim>\<open>o[n:]\<close>; here
  the slice and the offset are two arguments. None of them is in the sources at hand.
\<close>

definition putMint8 :: "slice \<Rightarrow> nat \<Rightarrow> byte \<Rightarrow> slice option" where
  "putMint8 ob n i = put ob n [mint8, i]"

definition putMint16 :: "slice \<Rightarrow> nat \<Rightarrow> 16 word \<Rightarrow> slice option" where
  "putMint16 ob n i = put ob n (mint16 # be16 i)"

definition putMint32 :: "slice \<Rightarrow> nat \<Rightarrow> 32 word \<Rightarrow> slice option" where
  "putMint32 ob n i = put ob n (mint32 # be32 i)"

definition putMint64 :: "slice \<Rightarrow> nat \<Rightarrow> 64 word \<Rightarrow> slice option" where
  "putMint64 ob n i = put ob n (mint64 # be64 i)"

definition putMuint8 :: "slice \<Rightarrow> nat \<Rightarrow> byte \<Rightarrow> slice option" where
  "putMuint8 ob n u = put ob n [muint8, u]"

definition putMuint16 :: "slice \<Rightarrow> nat \<Rightarrow> 16 word \<Rightarrow> slice option" where
  "putMuint16 ob n u = put ob n (muint16 # be16 u)"

definition putMuint32 :: "slice \<Rightarrow> nat \<Rightarrow> 32 word \<Rightarrow> slice option" where
  "putMuint32 ob n u = put ob n (muint32 # be32 u)"

definition putMuint64 :: "slice \<Rightarrow> nat \<Rightarrow> 64 word \<Rightarrow> slice option" where
  "putMuint64 ob n u = put ob n (muint64 # be64 u)"

definition prefixu32 :: "slice \<Rightarrow> nat \<Rightarrow> 32 word \<Rightarrow> byte \<Rightarrow> slice option" where
  "prefixu32 ob n u pre = put ob n (pre # be32 u)"

definition prefixu64 :: "slice \<Rightarrow> nat \<Rightarrow> 64 word \<Rightarrow> byte \<Rightarrow> slice option" where
  "prefixu64 ob n u pre = put ob n (pre # be64 u)"

section \<open>Nil, booleans, floats\<close>

definition AppendNil :: "(nat \<Rightarrow> nat) \<Rightarrow> slice \<Rightarrow> slice" where
  "AppendNil grow b = append_byte grow b mnil"

definition AppendBool :: "(nat \<Rightarrow> nat) \<Rightarrow> slice \<Rightarrow> bool \<Rightarrow> slice" where
  "AppendBool grow b t = (if t then append_byte grow b mtrue else append_byte grow b mfalse)"

text \<open>
  A float is given by its IEEE-754 bit pattern (\<^verbatim>\<open>math.Float64bits\<close>,
  \<^verbatim>\<open>math.Float32bits\<close>): the encoders only move the bits.
\<close>

definition AppendFloat64 :: "slice \<Rightarrow> 64 word \<Rightarrow> slice option" where
  "AppendFloat64 b f = do { (ob, n) \<leftarrow> ensure b Float64Size; prefixu64 ob n f mfloat64 }"

definition AppendFloat32 :: "slice \<Rightarrow> 32 word \<Rightarrow> slice option" where
  "AppendFloat32 b f = do { (ob, n) \<leftarrow> ensure b Float32Size; prefixu32 ob n f mfloat32 }"

section \<open>Integers\<close>

text \<open>
  \<^verbatim>\<open>AppendInt64\<close>, case by case as the source has it. \<^verbatim>\<open>math.MaxInt8\<close> is 127,
  \<^verbatim>\<open>math.MaxInt16\<close> 32767, \<^verbatim>\<open>math.MaxInt32\<close> 2147483647, \<^verbatim>\<open>math.MinInt8\<close>
  -128, \<^verbatim>\<open>math.MinInt16\<close> -32768 and \<^verbatim>\<open>math.MinInt32\<close> -2147483648; the
  comparisons are signed, the conversions \<^verbatim>\<open>int8(i)\<close>, \<^verbatim>\<open>int16(i)\<close>,
  \<^verbatim>\<open>int32(i)\<close> and \<^verbatim>\<open>uint8(i)\<close> keep the low bits.
\<close>

definition AppendInt64 :: "(nat \<Rightarrow> nat) \<Rightarrow> slice \<Rightarrow> 64 word \<Rightarrow> slice option" where
  "AppendInt64 grow b i =
     (if 0 \<le>s i then
        (if i \<le>s 127 then Some (append_byte grow b (wfixint (ucast i)))
         else if i \<le>s 32767 then do { (ob, n) \<leftarrow> ensure b 3; putMint16 ob n (ucast i) }
         else if i \<le>s 2147483647 then do { (ob, n) \<leftarrow> ensure b 5; putMint32 ob n (ucast i) }
         else do { (ob, n) \<leftarrow> ensure b 9; putMint64 ob n i })
      else if - 31 \<le>s i then Some (append_byte grow b (wnfixint (ucast i)))
      else if - 128 \<le>s i then do { (ob, n) \<leftarrow> ensure b 2; putMint8 ob n (ucast i) }
      else if - 32768 \<le>s i then do { (ob, n) \<leftarrow> ensure b 3; putMint16 ob n (ucast i) }
      else if - 2147483648 \<le>s i then do { (ob, n) \<leftarrow> ensure b 5; putMint32 ob n (ucast i) }
      else do { (ob, n) \<leftarrow> ensure b 9; putMint64 ob n i })"


definition AppendInt8 :: "(nat \<Rightarrow> nat) \<Rightarrow> slice \<Rightarrow> 8 word \<Rightarrow> slice option" where
  "AppendInt8 grow b i = AppendInt64 grow b (scast i)"

definition AppendInt16 :: "(nat \<Rightarrow> nat) \<Rightarrow> slice \<Rightarrow> 16 word \<Rightarrow> slice option" where
  "AppendInt16 grow b i = AppendInt64 grow b (scast i)"

definition AppendInt32 :: "(nat \<Rightarrow> nat) \<Rightarrow> slice \<Rightarrow> 32 word \<Rightarrow> slice option" where
  "AppendInt32 grow b i = AppendInt64 grow b (scast i)"

text \<open>\<^verbatim>\<open>AppendUint64\<close>: the comparisons are unsigned; \<^verbatim>\<open>(1<<7)-1\<close> is 127.\<close>

definition AppendUint64 :: "(nat \<Rightarrow> nat) \<Rightarrow> slice \<Rightarrow> 64 word \<Rightarrow> slice option" where
  "AppendUint64 grow b u =
     (if u \<le> 127 then Some (append_byte grow b (wfixint (ucast u)))
      else if u \<le> 255 then do { (ob, n) \<leftarrow> ensure b 2; putMuint8 ob n (ucast u) }
      else if u \<le> 65535 then do { (ob, n) \<leftarrow> ensure b 3; putMuint16 ob n (ucast u) }
      else if u \<le> 4294967295 then do { (ob, n) \<leftarrow> ensure b 5; putMuint32 ob n (ucast u) }
      else do { (ob, n) \<leftarrow> ensure b 9; putMuint64 ob n u })"


definition AppendUint8 :: "(nat \<Rightarrow> nat) \<Rightarrow> slice \<Rightarrow> 8 word \<Rightarrow> slice option" where
  "AppendUint8 grow b u = AppendUint64 grow b (ucast u)"


definition AppendUint16 :: "(nat \<Rightarrow> nat) \<Rightarrow> slice \<Rightarrow> 16 word \<Rightarrow> slice option" where
  "AppendUint16 grow b u = AppendUint64 grow b (ucast u)"

definition AppendUint32 :: "(nat \<Rightarrow> nat) \<Rightarrow> slice \<Rightarrow> 32 word \<Rightarrow> slice option" where
  "AppendUint32 grow b u = AppendUint64 grow b (ucast u)"

section \<open>Headers\<close>

text \<open>
  \<^verbatim>\<open>unsafe.Pointer(&o[n])\<close>: taking the address of \<^verbatim>\<open>o[n]\<close> panics unless
  \<open>n < len(o)\<close>.
\<close>

definition elem_addr :: "slice \<Rightarrow> nat \<Rightarrow> nat option" where
  "elem_addr ob n = (if n < slice_len ob then Some n else None)"

text \<open>
  Modelled from the spec: the store of a 32-bit header. The callers reserve 8 bytes for
  it (\<^verbatim>\<open>ensure(b, 8)\<close>, and the note in \<^verbatim>\<open>AppendBytes\<close>: "we need 8 free bytes of
  space in order to store the prefix+uint32 combo"): the five header bytes go out in one
  8-byte store. The three bytes after the header are taken to be zero; they lie in the
  reserved region and every caller either overwrites them or leaves them in the spare
  capacity.
\<close>

definition wide_hdr :: "byte \<Rightarrow> 32 word \<Rightarrow> byte list" where
  "wide_hdr pre n = pre # be32 n @ [0, 0, 0]"

text \<open>
  Modelled from the spec: \<^verbatim>\<open>putMapHdr\<close> and \<^verbatim>\<open>putArrayHdr\<close> (section 4.3: the
  narrowest of the fixed small form for a count up to 15, the 16-bit count and the 32-bit
  count). Each stores the header at the address it is given and returns the header's
  width. Neither is in the sources at hand. \<open>mapHdr\<close> and \<open>arrayHdr\<close> give the bytes
  stored and the width returned.
\<close>

definition mapHdr :: "int \<Rightarrow> byte list \<times> nat" where
  "mapHdr sz =
     (if sz \<le> 15 then ([mfixmap OR word_of_int sz], 1)
      else if sz \<le> 65535 then (mmap16 # be16 (word_of_int sz), 3)
      else (wide_hdr mmap32 (word_of_int sz), 5))"

definition putMapHdr :: "slice \<Rightarrow> nat \<Rightarrow> int \<Rightarrow> (slice \<times> nat) option" where
  "putMapHdr ob p sz = (let (bs, k) = mapHdr sz in map_option (\<lambda>r. (r, k)) (put ob p bs))"

definition arrayHdr :: "int \<Rightarrow> byte list \<times> nat" where
  "arrayHdr sz =
     (if sz \<le> 15 then ([mfixarray OR word_of_int sz], 1)
      else if sz \<le> 65535 then (marray16 # be16 (word_of_int sz), 3)
      else (wide_hdr marray32 (word_of_int sz), 5))"

definition putArrayHdr :: "slice \<Rightarrow> nat \<Rightarrow> int \<Rightarrow> (slice \<times> nat) option" where
  "putArrayHdr ob p sz = (let (bs, k) = arrayHdr sz in map_option (\<lambda>r. (r, k)) (put ob p bs))"

text \<open>
  Modelled from the spec: \<^verbatim>\<open>putStrHdr\<close> and \<^verbatim>\<open>putBinHdr\<close> (section 4.3: the
  narrowest of the fixed small form, strings only, for a length up to 31; the 8-bit
  length, strings only; the 16-bit length; the 32-bit length). Neither is in the sources
  at hand. \<open>strHdr\<close> and \<open>binHdr\<close> give the bytes stored and the width returned.
\<close>

definition strHdr :: "int \<Rightarrow> byte list \<times> nat" where
  "strHdr sz =
     (if sz \<le> 31 then ([mfixstr OR word_of_int sz], 1)
      else if sz \<le> 255 then ([mstr8, word_of_int sz], 2)
      else if sz \<le> 65535 then (mstr16 # be16 (word_of_int sz), 3)
      else (wide_hdr mstr32 (word_of_int sz), 5))"

definition putStrHdr :: "slice \<Rightarrow> nat \<Rightarrow> int \<Rightarrow> (slice \<times> nat) option" where
  "putStrHdr ob p sz = (let (bs, k) = strHdr sz in map_option (\<lambda>r. (r, k)) (put ob p bs))"

definition binHdr :: "int \<Rightarrow> byte list \<times> nat" where
  "binHdr sz =
     (if sz \<le> 65535 then (mbin16 # be16 (word_of_int sz), 3)
      else (wide_hdr mbin32 (word_of_int sz), 5))"

definition putBinHdr :: "slice \<Rightarrow> nat \<Rightarrow> int \<Rightarrow> (slice \<times> nat) option" where
  "putBinHdr ob p sz = (let (bs, k) = binHdr sz in map_option (\<lambda>r. (r, k)) (put ob p bs))"

text \<open>
  \<^verbatim>\<open>
  func AppendMapHeader(b []byte, sz uint32) []byte {
      o, n := ensure(b, 8)
      return o[:n+putMapHdr(unsafe.Pointer(&o[n]), int(sz))]
  }
  func AppendArrayHeader(b []byte, sz uint32) []byte {
      o, n := ensure(b, 8)
      return o[:len(b)+putArrayHdr(unsafe.Pointer(&o[n]), int(sz))]
  }
  \<close>
\<close>

definition AppendMapHeader :: "slice \<Rightarrow> 32 word \<Rightarrow> slice option" where
  "AppendMapHeader b sz = do {
     (ob, n) \<leftarrow> ensure b 8;
     p \<leftarrow> elem_addr ob n;
     (ob', k) \<leftarrow> putMapHdr ob p (uint sz);
     reslice ob' (int n + int k) }"

definition AppendArrayHeader :: "slice \<Rightarrow> 32 word \<Rightarrow> slice option" where
  "AppendArrayHeader b sz = do {
     (ob, n) \<leftarrow> ensure b 8;
     p \<leftarrow> elem_addr ob n;
     (ob', k) \<leftarrow> putArrayHdr ob p (uint sz);
     reslice ob' (int (slice_len b) + int k) }"

section \<open>Binary blobs and strings\<close>

text \<open>
  \<^verbatim>\<open>copy(o[hdr:], src)\<close>: the sub-slice \<^verbatim>\<open>o[hdr:]\<close> panics when \<open>hdr > len(o)\<close>;
  the copy stores \<open>min (len(o) - hdr) (len src)\<close> bytes and returns that count.
\<close>

definition copy_at :: "slice \<Rightarrow> nat \<Rightarrow> byte list \<Rightarrow> (slice \<times> nat) option" where
  "copy_at ob k src =
     (if k \<le> slice_len ob then
        (let m = min (slice_len ob - k) (length src)
         in Some (ob\<lparr>elems := take k (elems ob) @ take m src @ drop (k + m) (elems ob)\<rparr>, m))
      else None)"

text \<open>
  \<^verbatim>\<open>
  func AppendBytes(b []byte, bts []byte) []byte {
      sz := len(bts)
      o, n := ensure(b, 5+sz)
      hdr := n + putBinHdr(unsafe.Pointer(&o[n]), sz)
      return o[:hdr+copy(o[hdr:], bts)]
  }
  \<close>
  \<^verbatim>\<open>AppendString\<close> and \<^verbatim>\<open>AppendStringFromBytes\<close> have the same body with
  \<^verbatim>\<open>putStrHdr\<close>. A Go string is its bytes.
\<close>

definition AppendBytes :: "slice \<Rightarrow> byte list \<Rightarrow> slice option" where
  "AppendBytes b bts = do {
     let sz = int (length bts);
     (ob, n) \<leftarrow> ensure b (5 + sz);
     p \<leftarrow> elem_addr ob n;
     (ob1, k) \<leftarrow> putBinHdr ob p sz;
     let hdr = n + k;
     (ob2, m) \<leftarrow> copy_at ob1 hdr bts;
     reslice ob2 (int hdr + int m) }"

definition AppendString :: "slice \<Rightarrow> byte list \<Rightarrow> slice option" where
  "AppendString b s = do {
     let sz = int (length s);
     (ob, n) \<leftarrow> ensure b (5 + sz);
     p \<leftarrow> elem_addr ob n;
     (ob1, k) \<leftarrow> putStrHdr ob p sz;
     let hdr = n + k;
     (ob2, m) \<leftarrow> copy_at ob1 hdr s;
     reslice ob2 (int hdr + int m) }"

definition AppendStringFromBytes :: "slice \<Rightarrow> byte list \<Rightarrow> slice option" where
  "AppendStringFromBytes b s = do {
     let sz = int (length s);
     (ob, n) \<leftarrow> ensure b (5 + sz);
     p \<leftarrow> elem_addr ob n;
     (ob1, k) \<leftarrow> putStrHdr ob p sz;
     let hdr = n + k;
     (ob2, m) \<leftarrow> copy_at ob1 hdr s;
     reslice ob2 (int hdr + int m) }"

section \<open>Extensions: complex numbers and timestamps\<close>

text \<open>
  Modelled from the spec: \<^verbatim>\<open>put232\<close>, \<^verbatim>\<open>put264\<close> and \<^verbatim>\<open>putUnix\<close> (section 4.4:
  two big-endian 32-bit float bit patterns, real then imaginary; two big-endian 64-bit
  ones; 8-byte big-endian signed Unix seconds, then a 4-byte big-endian nanosecond
  fraction). None of them is in the sources at hand.
\<close>

definition put232 :: "slice \<Rightarrow> nat \<Rightarrow> 32 word \<Rightarrow> 32 word \<Rightarrow> slice option" where
  "put232 ob n re im = put ob n (be32 re @ be32 im)"

definition put264 :: "slice \<Rightarrow> nat \<Rightarrow> 64 word \<Rightarrow> 64 word \<Rightarrow> slice option" where
  "put264 ob n re im = put ob n (be64 re @ be64 im)"

definition putUnix :: "slice \<Rightarrow> nat \<Rightarrow> 64 word \<Rightarrow> 32 word \<Rightarrow> slice option" where
  "putUnix ob n sec nsec = put ob n (be64 sec @ be32 nsec)"

text \<open>A complex number is the bit patterns of its real and imaginary parts.\<close>

definition AppendComplex64 :: "slice \<Rightarrow> 32 word \<Rightarrow> 32 word \<Rightarrow> slice option" where
  "AppendComplex64 b re im = do {
     (ob, n) \<leftarrow> ensure b Complex64Size;
     ob1 \<leftarrow> put ob n [mfixext8];
     ob2 \<leftarrow> put ob1 (n + 1) [Complex64Extension];
     put232 ob2 (n + 2) re im }"

definition AppendComplex128 :: "slice \<Rightarrow> 64 word \<Rightarrow> 64 word \<Rightarrow> slice option" where
  "AppendComplex128 b re im = do {
     (ob, n) \<leftarrow> ensure b Complex128Size;
     ob1 \<leftarrow> put ob n [mfixext16];
     ob2 \<leftarrow> put ob1 (n + 1) [Complex128Extension];
     put264 ob2 (n + 2) re im }"

text \<open>
  Go's \<^verbatim>\<open>time.Time\<close> is an instant and a location. The instant is the seconds since the
  Unix epoch and the nanoseconds within the second (0 to 999999999); \<^verbatim>\<open>t.Unix()\<close> and
  \<^verbatim>\<open>t.Nanosecond()\<close> read them, and neither depends on the location. \<^verbatim>\<open>t.UTC()\<close> is
  the same instant with the location set to UTC.
\<close>

datatype location = UTC | Local | FixedZone string int

record gotime =
  unix_sec :: "64 word"
  nsec :: nat
  loc :: location

definition to_UTC :: "gotime \<Rightarrow> gotime" where
  "to_UTC t = t\<lparr>loc := UTC\<rparr>"

definition Unix :: "gotime \<Rightarrow> 64 word" where
  "Unix t = unix_sec t"

definition Nanosecond :: "gotime \<Rightarrow> int" where
  "Nanosecond t = int (nsec t)"

text \<open>
  \<^verbatim>\<open>
  func AppendTime(b []byte, t time.Time) []byte {
      o, n := ensure(b, TimeSize)
      t = t.UTC()
      o[n] = mext8
      o[n+1] = 12
      o[n+2] = TimeExtension
      putUnix(o[n+3:], t.Unix(), int32(t.Nanosecond()))
      return o
  }
  \<close>
\<close>

definition AppendTime :: "slice \<Rightarrow> gotime \<Rightarrow> slice option" where
  "AppendTime b t = do {
     (ob, n) \<leftarrow> ensure b TimeSize;
     let t' = to_UTC t;
     ob1 \<leftarrow> put ob n [mext8];
     ob2 \<leftarrow> put ob1 (n + 1) [12];
     ob3 \<leftarrow> put ob2 (n + 2) [TimeExtension];
     putUnix ob3 (n + 3) (Unix t') (word_of_int (Nanosecond t')) }"

section \<open>Maps of strings\<close>

text \<open>
  A Go map is given as the list of its entries in the order the \<^verbatim>\<open>range\<close> loop visits
  them; the language leaves that order open, and \<^verbatim>\<open>len(m)\<close> is the length of the list.
  \<^verbatim>\<open>
  func AppendMapStrStr(b []byte, m map[string]string) []byte {
      sz := uint32(len(m))
      b = AppendMapHeader(b, sz)
      for key, val := range m {
          b = AppendString(b, key)
          b = AppendString(b, val)
      }
      return b
  }
  \<close>
\<close>

fun AppendMapStrStr_loop :: "slice \<Rightarrow> (byte list \<times> byte list) list \<Rightarrow> slice option" where
  "AppendMapStrStr_loop b [] = Some b"
| "AppendMapStrStr_loop b ((key, val) # m) = do {
     b1 \<leftarrow> AppendString b key;
     b2 \<leftarrow> AppendString b1 val;
     AppendMapStrStr_loop b2 m }"

definition AppendMapStrStr :: "slice \<Rightarrow> (byte list \<times> byte list) list \<Rightarrow> slice option" where
  "AppendMapStrStr b m = do {
     let sz = (of_nat (length m) :: 32 word);
     b1 \<leftarrow> AppendMapHeader b sz;
     AppendMapStrStr_loop b1 m }"

section \<open>Dynamic values\<close>

text \<open>
  A \<^verbatim>\<open>reflect.Type\<close>, as far as an error message tells types apart: a named type (the
  predeclared ones included), or a type literal.
\<close>

datatype gotype =
    TNamed string
  | TPtr gotype
  | TSlice gotype
  | TArray nat gotype
  | TMap gotype gotype
  | TChan gotype
  | TFunc
  | TStruct "gotype list"

text \<open>
  Errors: the one this file creates, \<^verbatim>\<open>&ErrUnsupportedType{T: v.Type()}\<close>, and any other
  error value, which only code outside this file creates.
\<close>

datatype error = ErrUnsupportedType gotype | ErrExternal string

text \<open>
  What a function returning \<^verbatim>\<open>([]byte, error)\<close> does: it panics (\<open>None\<close>) or returns a
  buffer and an error that may be \<^verbatim>\<open>nil\<close>.
\<close>

type_synonym outcome = "(slice \<times> error option) option"

definition ok :: "slice option \<Rightarrow> outcome" where
  "ok r = map_option (\<lambda>b. (b, None)) r"

text \<open>
  An \<^verbatim>\<open>interface{}\<close> argument, as \<^verbatim>\<open>AppendIntf\<close> can tell values apart. It is the nil
  interface, or it holds a value of some type. Of the type the dispatch asks, in this
  order: does it have the method of \<^verbatim>\<open>Marshaler\<close> (then \<^verbatim>\<open>MarshalMsg\<close> is a function
  from the buffer to an outcome); does it have the methods of \<^verbatim>\<open>Extension\<close> (then the
  value carries what \<^verbatim>\<open>AppendExtension\<close> does with it); is it exactly one of the listed
  types; and last what \<^verbatim>\<open>reflect\<close> says of its kind: an array or slice of some other
  type (with the elements \<^verbatim>\<open>v.Index(i).Interface()\<close>), a pointer (with what it points
  to), or any other kind. The model lets a value have a capability and any shape, as the
  type switch does not exclude it.
\<close>

datatype dyn =
    VNil
  | Iface "(slice \<Rightarrow> outcome) option" "(slice \<Rightarrow> outcome) option" shape
and shape =
    SBool bool
  | SFloat32 "32 word"
  | SFloat64 "64 word"
  | SComplex64 "32 word" "32 word"
  | SComplex128 "64 word" "64 word"
  | SString "byte list"
  | SBytes "byte list"
  | SInt8 "8 word"
  | SInt16 "16 word"
  | SInt32 "32 word"
  | SInt64 "64 word"
  | SInt "64 word"
  | SUint "64 word"
  | SUint8 "8 word"
  | SUint16 "16 word"
  | SUint32 "32 word"
  | SUint64 "64 word"
  | STime gotime
  | SMapStrIntf "(byte list \<times> dyn) list"
  | SMapStrStr "(byte list \<times> byte list) list"
  | SSliceIntf "dyn list"
  | SSeq gotype "dyn list"
  | SPtr gotype dyn
  | SOther gotype

text \<open>
  Modelled from the spec: \<^verbatim>\<open>AppendExtension\<close> (section 4.5, step 3: header, declared
  type code, the payload encoder's output; section 7: its error is passed on unchanged).
  The function is not in the sources at hand, so what it returns for a value is taken
  from the value.
\<close>

definition AppendExtension :: "slice \<Rightarrow> (slice \<Rightarrow> outcome) \<Rightarrow> outcome" where
  "AppendExtension b e = e b"

subsection \<open>The three loops over elements\<close>

text \<open>
  Each loop is written over the function that encodes one element, which is
  \<^verbatim>\<open>AppendIntf\<close> itself. The first is
  \<^verbatim>\<open>for _, k := range i { b, err = AppendIntf(b, k); if err != nil { return b, err } }\<close>.
\<close>

fun range_loop :: "(slice \<Rightarrow> 'a \<Rightarrow> outcome) \<Rightarrow> slice \<Rightarrow> 'a list \<Rightarrow> outcome" where
  "range_loop enc b [] = Some (b, None)"
| "range_loop enc b (k # ks) =
     (case enc b k of
        None \<Rightarrow> None
      | Some (b', Some err) \<Rightarrow> Some (b', Some err)
      | Some (b', None) \<Rightarrow> range_loop enc b' ks)"

text \<open>
  The second is
  \<^verbatim>\<open>for i := 0; i < l; i++ { b, err = AppendIntf(b, v.Index(i).Interface()); ... }\<close>;
  \<^verbatim>\<open>v.Index(i)\<close> panics when \<open>i\<close> is out of range.
\<close>

function index_loop ::
  "(slice \<Rightarrow> 'a \<Rightarrow> outcome) \<Rightarrow> slice \<Rightarrow> 'a list \<Rightarrow> nat \<Rightarrow> nat \<Rightarrow> outcome" where
  "index_loop enc b v l i =
     (if i < l then
        (if i < length v then
           (case enc b (v ! i) of
              None \<Rightarrow> None
            | Some (b', Some err) \<Rightarrow> Some (b', Some err)
            | Some (b', None) \<Rightarrow> index_loop enc b' v l (Suc i))
         else None)
      else Some (b, None))"
  by pat_completeness auto
termination
  by (relation "measure (\<lambda>(enc, b, v, l, i). l - i)") auto

declare index_loop.simps [simp del]

text \<open>
  The third is the loop of \<^verbatim>\<open>AppendMapStrIntf\<close>:
  \<^verbatim>\<open>for key, val := range m { b = AppendString(b, key); b, err = AppendIntf(b, val); ... }\<close>.
\<close>

fun map_loop ::
  "(slice \<Rightarrow> 'a \<Rightarrow> outcome) \<Rightarrow> slice \<Rightarrow> (byte list \<times> 'a) list \<Rightarrow> outcome" where
  "map_loop enc b [] = Some (b, None)"
| "map_loop enc b ((key, val) # m) =
     (case AppendString b key of
        None \<Rightarrow> None
      | Some b1 \<Rightarrow>
          (case enc b1 val of
             None \<Rightarrow> None
           | Some (b2, Some err) \<Rightarrow> Some (b2, Some err)
           | Some (b2, None) \<Rightarrow> map_loop enc b2 m))"

text \<open>
  A loop only applies the encoder to elements of its list; the recursion of
  \<^verbatim>\<open>AppendIntf\<close> through the loops terminates for that reason.
\<close>

lemma range_loop_cong [fundef_cong]:
  assumes "b = b'" "xs = ys" "\<And>c x. x \<in> set ys \<Longrightarrow> f c x = g c x"
  shows "range_loop f b xs = range_loop g b' ys"
proof -
  have "range_loop f c ys = range_loop g c ys" for c
    using assms(3)
  proof (induction ys arbitrary: c)
    case Nil
    show ?case by simp
  next
    case (Cons y ys)
    have h: "f c y = g c y"
      by (rule Cons.prems) simp
    have t: "range_loop f c' ys = range_loop g c' ys" for c'
      by (rule Cons.IH, rule Cons.prems) simp
    show ?case
      by (simp add: h t split: option.splits)
  qed
  then show ?thesis
    by (simp only: assms(1,2))
qed

lemma map_loop_cong [fundef_cong]:
  assumes "b = b'" "m = m'" "\<And>c k x. (k, x) \<in> set m' \<Longrightarrow> f c x = g c x"
  shows "map_loop f b m = map_loop g b' m'"
proof -
  have "map_loop f c m' = map_loop g c m'" for c
    using assms(3)
  proof (induction m' arbitrary: c)
    case Nil
    show ?case by simp
  next
    case (Cons kv m')
    obtain k v where kv: "kv = (k, v)"
      by (cases kv)
    have h: "f c' v = g c' v" for c'
      by (rule Cons.prems [of k]) (simp add: kv)
    have t: "map_loop f c' m' = map_loop g c' m'" for c'
    proof (rule Cons.IH)
      fix c'' k' x
      assume "(k', x) \<in> set m'"
      then show "f c'' x = g c'' x"
        by (intro Cons.prems [of k']) simp
    qed
    show ?case
      by (simp add: kv h t split: option.splits)
  qed
  then show ?thesis
    by (simp only: assms(1,2))
qed

lemma index_loop_cong [fundef_cong]:
  assumes "b = b'" "xs = ys" "l = l'" "i = i'" "\<And>c x. x \<in> set ys \<Longrightarrow> f c x = g c x"
  shows "index_loop f b xs l i = index_loop g b' ys l' i'"
proof -
  have "index_loop f c ys l i = index_loop g c ys l i" for c
  proof (induction "l - i" arbitrary: c i)
    case 0
    then show ?case
      by (simp add: index_loop.simps [of _ _ _ l i])
  next
    case (Suc d)
    show ?case
    proof (cases "i < l \<and> i < length ys")
      case True
      then have h: "f c (ys ! i) = g c (ys ! i)"
        by (intro assms(5)) simp
      have t: "index_loop f c' ys l (Suc i) = index_loop g c' ys l (Suc i)" for c'
        using Suc.hyps(2) by (intro Suc.hyps(1)) simp
      show ?thesis
        by (simp add: index_loop.simps [of _ _ _ l i] h t split: option.splits)
    next
      case False
      then show ?thesis
        by (auto simp: index_loop.simps [of _ _ _ l i])
    qed
  qed
  then show ?thesis
    by (simp only: assms(1-4))
qed

subsection \<open>AppendIntf and AppendMapStrIntf\<close>

text \<open>
  The equations follow the source from top to bottom: the test for \<^verbatim>\<open>nil\<close>, the cases
  of the type switch in their order (\<^verbatim>\<open>Marshaler\<close>, \<^verbatim>\<open>Extension\<close>, then the listed
  types), and the switch on \<^verbatim>\<open>v.Kind()\<close>, whose \<^verbatim>\<open>default\<close> returns the buffer and
  \<^verbatim>\<open>&ErrUnsupportedType{T: v.Type()}\<close>. \<^verbatim>\<open>AppendMapStrIntf\<close> writes the map header and
  runs its loop; the two functions call each other.
\<close>

fun AppendIntf :: "(nat \<Rightarrow> nat) \<Rightarrow> slice \<Rightarrow> dyn \<Rightarrow> outcome"
  and AppendMapStrIntf :: "(nat \<Rightarrow> nat) \<Rightarrow> slice \<Rightarrow> (byte list \<times> dyn) list \<Rightarrow> outcome"
where
  "AppendIntf grow b VNil = Some (AppendNil grow b, None)"
| "AppendIntf grow b (Iface (Some m) e s) = m b"
| "AppendIntf grow b (Iface None (Some e) s) = AppendExtension b e"
| "AppendIntf grow b (Iface None None (SBool t)) = Some (AppendBool grow b t, None)"
| "AppendIntf grow b (Iface None None (SFloat32 f)) = ok (AppendFloat32 b f)"
| "AppendIntf grow b (Iface None None (SFloat64 f)) = ok (AppendFloat64 b f)"
| "AppendIntf grow b (Iface None None (SComplex64 re im)) = ok (AppendComplex64 b re im)"
| "AppendIntf grow b (Iface None None (SComplex128 re im)) = ok (AppendComplex128 b re im)"
| "AppendIntf grow b (Iface None None (SString s)) = ok (AppendString b s)"
| "AppendIntf grow b (Iface None None (SBytes bts)) = ok (AppendBytes b bts)"
| "AppendIntf grow b (Iface None None (SInt8 i)) = ok (AppendInt8 grow b i)"
| "AppendIntf grow b (Iface None None (SInt16 i)) = ok (AppendInt16 grow b i)"
| "AppendIntf grow b (Iface None None (SInt32 i)) = ok (AppendInt32 grow b i)"
| "AppendIntf grow b (Iface None None (SInt64 i)) = ok (AppendInt64 grow b i)"
| "AppendIntf grow b (Iface None None (SInt i)) = ok (AppendInt64 grow b i)"
| "AppendIntf grow b (Iface None None (SUint u)) = ok (AppendUint64 grow b u)"
| "AppendIntf grow b (Iface None None (SUint8 u)) = ok (AppendUint8 grow b u)"
| "AppendIntf grow b (Iface None None (SUint16 u)) = ok (AppendUint16 grow b u)"
| "AppendIntf grow b (Iface None None (SUint32 u)) = ok (AppendUint32 grow b u)"
| "AppendIntf grow b (Iface None None (SUint64 u)) = ok (AppendUint64 grow b u)"
| "AppendIntf grow b (Iface None None (STime t)) = ok (AppendTime b t)"
| "AppendIntf grow b (Iface None None (SMapStrIntf m)) = AppendMapStrIntf grow b m"
| "AppendIntf grow b (Iface None None (SMapStrStr m)) = ok (AppendMapStrStr b m)"
| "AppendIntf grow b (Iface None None (SSliceIntf xs)) =
     (case AppendArrayHeader b (of_nat (length xs)) of
        None \<Rightarrow> None
      | Some b1 \<Rightarrow> range_loop (AppendIntf grow) b1 xs)"
| "AppendIntf grow b (Iface None None (SSeq T xs)) =
     (let l = length xs in
      case AppendArrayHeader b (of_nat l) of
        None \<Rightarrow> None
      | Some b1 \<Rightarrow> index_loop (AppendIntf grow) b1 xs l 0)"
| "AppendIntf grow b (Iface None None (SPtr T v)) = Some (b, Some (ErrUnsupportedType T))"
| "AppendIntf grow b (Iface None None (SOther T)) = Some (b, Some (ErrUnsupportedType T))"
| "AppendMapStrIntf grow b m =
     (let sz = (of_nat (length m) :: 32 word) in
      case AppendMapHeader b sz of
        None \<Rightarrow> None
      | Some b1 \<Rightarrow> map_loop (AppendIntf grow) b1 m)"

section \<open>Notions the properties are stated in\<close>

text \<open>
  \<open>appends r b enc\<close>: the call returned (no panic), and the bytes of the buffer it
  returned are the bytes of \<open>b\<close> followed by \<open>enc\<close>.
\<close>

definition appends :: "slice option \<Rightarrow> slice \<Rightarrow> byte list \<Rightarrow> bool" where
  "appends r b enc = (case r of None \<Rightarrow> False | Some ob \<Rightarrow> elems ob = elems b @ enc)"

text \<open>The bytes \<^verbatim>\<open>AppendInt64\<close> and \<^verbatim>\<open>AppendUint64\<close> append, read off their cases.\<close>

definition int64_enc :: "64 word \<Rightarrow> byte list" where
  "int64_enc i =
     (if 0 \<le>s i then
        (if i \<le>s 127 then [wfixint (ucast i)]
         else if i \<le>s 32767 then mint16 # be16 (ucast i)
         else if i \<le>s 2147483647 then mint32 # be32 (ucast i)
         else mint64 # be64 i)
      else if - 31 \<le>s i then [wnfixint (ucast i)]
      else if - 128 \<le>s i then [mint8, ucast i]
      else if - 32768 \<le>s i then mint16 # be16 (ucast i)
      else if - 2147483648 \<le>s i then mint32 # be32 (ucast i)
      else mint64 # be64 i)"








text \<open>
  The number a byte string denotes when read big-endian, and the bytes \<^verbatim>\<open>AppendTime\<close>
  appends for a time.
\<close>

definition be_value :: "byte list \<Rightarrow> nat" where
  "be_value bs = foldl (\<lambda>a x. a * 256 + unat x) 0 bs"

definition time_enc :: "gotime \<Rightarrow> byte list" where
  "time_enc t = [mext8, 12, TimeExtension] @ be64 (Unix t) @ be32 (word_of_int (Nanosecond t))"

text \<open>Two times denote the same instant, whatever their locations.\<close>

definition same_instant :: "gotime \<Rightarrow> gotime \<Rightarrow> bool" where
  "same_instant t t' \<longleftrightarrow> unix_sec t = unix_sec t' \<and> nsec t = nsec t'"

text \<open>The pattern of the string and blob encoders: reserve, store a header, copy, trim.\<close>

definition hdr_payload :: "slice \<Rightarrow> byte list \<Rightarrow> nat \<Rightarrow> byte list \<Rightarrow> slice option" where
  "hdr_payload b hb k s = do {
     (ob, n) \<leftarrow> ensure b (5 + int (length s));
     p \<leftarrow> elem_addr ob n;
     ob1 \<leftarrow> put ob p hb;
     (ob2, m) \<leftarrow> copy_at ob1 (n + k) s;
     reslice ob2 (int (n + k) + int m) }"

text \<open>The bytes \<^verbatim>\<open>AppendString\<close> and \<^verbatim>\<open>AppendBytes\<close> append: header, then payload.\<close>

definition str_enc :: "byte list \<Rightarrow> byte list" where
  "str_enc s = take (snd (strHdr (int (length s)))) (fst (strHdr (int (length s)))) @ s"

definition bin_enc :: "byte list \<Rightarrow> byte list" where
  "bin_enc s = take (snd (binHdr (int (length s)))) (fst (binHdr (int (length s)))) @ s"




text \<open>
  A pure extension: there is one byte string, the encoding of the value, such that for
  every buffer the call returns a buffer whose first \<open>len(b)\<close> bytes are the bytes of
  \<open>b\<close> and whose length is \<open>len(b)\<close> plus the length of the encoding; the bytes after
  the old ones are the encoding. \<open>pure_outcome\<close> is the same for a function that also
  returns an error, which then is the same for every buffer.
\<close>

definition pure_extension :: "(slice \<Rightarrow> slice option) \<Rightarrow> bool" where
  "pure_extension f \<longleftrightarrow>
     (\<exists>enc. \<forall>b. \<exists>ob. f b = Some ob
        \<and> take (slice_len b) (elems ob) = elems b
        \<and> slice_len ob = slice_len b + length enc
        \<and> drop (slice_len b) (elems ob) = enc)"








section \<open>Properties of ensure\<close>

lemma slice_len_le_cap: "slice_len b \<le> slice_cap b"
  by (simp add: slice_len_def slice_cap_def)

lemma ensure_grow:
  assumes "0 \<le> sz" and "int (slice_cap b) - int (slice_len b) < sz"
  shows "ensure b sz = Some (\<lparr>elems = elems b @ replicate (nat sz) 0,
            spare = replicate (2 * slice_cap b - slice_len b) 0\<rparr>, slice_len b)"
proof -
  have le: "slice_len b \<le> slice_cap b"
    by (rule slice_len_le_cap)
  have m: "min (nat (2 * int (slice_cap b) + sz)) (length (elems b)) = length (elems b)"
    using assms le by (simp add: slice_len_def)
  have r: "replicate (nat (2 * int (slice_cap b) + sz) - length (elems b)) (0::byte)
      = replicate (nat sz) 0 @ replicate (2 * slice_cap b - slice_len b) 0"
    using assms le
    by (simp add: slice_len_def replicate_add [symmetric] nat_add_distrib nat_mult_distrib)
  show ?thesis
    using assms le
    by (simp add: ensure_def Let_def copy_bytes_def make_bytes_def reslice_def m r
        slice_len_def slice_cap_def nat_add_distrib)
qed

lemma ensure_in_place:
  assumes "0 \<le> sz" and "\<not> int (slice_cap b) - int (slice_len b) < sz"
  shows "ensure b sz = Some (\<lparr>elems = elems b @ take (nat sz) (spare b),
            spare = drop (nat sz) (spare b)\<rparr>, slice_len b)"
  using assms
  by (simp add: ensure_def Let_def reslice_def slice_len_def slice_cap_def nat_add_distrib)

text \<open>
  Claim C3. For a buffer \<open>b\<close> and a requested size \<open>sz\<close> (a byte count, so not
  negative), \<open>ensure b sz\<close> returns a buffer and the offset \<open>len(b)\<close>; the first
  \<open>len(b)\<close> bytes of the buffer are the bytes of \<open>b\<close>, and \<open>sz\<close> more bytes follow
  them. When \<open>cap(b) - len(b) < sz\<close> the buffer is new storage of exactly
  \<open>2 * cap(b) + sz\<close> bytes, zero after the copied ones; otherwise it is the backing array
  of \<open>b\<close>, unchanged.
\<close>

theorem ensure_reserves:
  assumes "0 \<le> sz"
  shows "\<exists>ob. ensure b sz = Some (ob, slice_len b)
           \<and> take (slice_len b) (elems ob) = elems b
           \<and> slice_len ob = slice_len b + nat sz
           \<and> (if int (slice_cap b) - int (slice_len b) < sz
              then slice_cap ob = 2 * slice_cap b + nat sz
                 \<and> drop (slice_len b) (elems ob) @ spare ob
                     = replicate (2 * slice_cap b + nat sz - slice_len b) 0
              else elems ob @ spare ob = elems b @ spare b)"
proof (cases "int (slice_cap b) - int (slice_len b) < sz")
  case True
  have le: "slice_len b \<le> slice_cap b"
    by (rule slice_len_le_cap)
  have "replicate (nat sz) (0::byte) @ replicate (2 * slice_cap b - slice_len b) 0
      = replicate (2 * slice_cap b + nat sz - slice_len b) 0"
    using le by (simp add: replicate_add [symmetric])
  with True assms le show ?thesis
    by (simp add: ensure_grow slice_len_def slice_cap_def)
next
  case False
  with assms show ?thesis
    by (simp add: ensure_in_place slice_len_def slice_cap_def)
qed

theorem ensure_reserves_witness:
  "(0::int) \<le> 3
   \<and> ensure \<lparr>elems = [1, 2], spare = [9]\<rparr> 3
       = Some (\<lparr>elems = [1, 2, 0, 0, 0], spare = [0, 0, 0, 0]\<rparr>, 2)
   \<and> ensure \<lparr>elems = [1, 2], spare = [7, 8, 9, 10]\<rparr> 3
       = Some (\<lparr>elems = [1, 2, 7, 8, 9], spare = [10]\<rparr>, 2)"
  using ensure_reserves [of 3 "\<lparr>elems = [1, 2], spare = [9]\<rparr>"]
    ensure_reserves [of 3 "\<lparr>elems = [1, 2], spare = [7, 8, 9, 10]\<rparr>"]
  by (simp add: ensure_def Let_def copy_bytes_def make_bytes_def reslice_def
      slice_len_def slice_cap_def numeral_eq_Suc)

lemma ensure_obtain:
  assumes "0 \<le> sz"
  obtains fresh rest where
    "ensure b sz = Some (\<lparr>elems = elems b @ fresh, spare = rest\<rparr>, slice_len b)"
    "length fresh = nat sz"
proof (cases "int (slice_cap b) - int (slice_len b) < sz")
  case True
  with assms that [of "replicate (nat sz) 0"] show ?thesis
    by (simp add: ensure_grow)
next
  case False
  with assms that [of "take (nat sz) (spare b)"] show ?thesis
    by (simp add: ensure_in_place slice_len_def slice_cap_def)
qed

section \<open>Stores into the reserved bytes\<close>

lemma put_fresh:
  "length bs \<le> length fresh \<Longrightarrow>
   put \<lparr>elems = pre @ fresh, spare = rest\<rparr> (length pre) bs
     = Some \<lparr>elems = pre @ bs @ drop (length bs) fresh, spare = rest\<rparr>"
  by (simp add: put_def slice_len_def)

lemma store_full:
  assumes "0 \<le> sz" and "length bs = nat sz"
  shows "\<exists>rest. (ensure b sz \<bind> (\<lambda>(ob, n). put ob n bs))
           = Some \<lparr>elems = elems b @ bs, spare = rest\<rparr>"
proof -
  obtain fresh rest where
    e: "ensure b sz = Some (\<lparr>elems = elems b @ fresh, spare = rest\<rparr>, slice_len b)"
    and l: "length fresh = nat sz"
    using assms(1) by (rule ensure_obtain)
  show ?thesis
    using assms(2) l by (simp add: e slice_len_def put_fresh)
qed

lemma elems_append_byte: "elems (append_byte grow b x) = elems b @ [x]"
  by (simp add: append_byte_def split: list.splits)

section \<open>The dispatch of AppendIntf\<close>

lemma index_loop_stop: "\<not> i < l \<Longrightarrow> index_loop enc b v l i = Some (b, None)"
  by (simp add: index_loop.simps [of enc b v l i])

text \<open>The indexed loop from 0 over the whole sequence is the range loop.\<close>

lemma index_loop_drop:
  "i \<le> length xs \<Longrightarrow> index_loop enc b xs (length xs) i = range_loop enc b (drop i xs)"
proof (induction "length xs - i" arbitrary: b i)
  case 0
  then show ?case
    by (simp add: index_loop_stop)
next
  case (Suc d)
  then have lt: "i < length xs"
    by simp
  then have d: "drop i xs = xs ! i # drop (Suc i) xs"
    by (simp add: Cons_nth_drop_Suc)
  have t: "index_loop enc c xs (length xs) (Suc i) = range_loop enc c (drop (Suc i) xs)" for c
    using Suc.hyps(2) lt by (intro Suc.hyps(1)) simp_all
  show ?case
    using lt by (simp add: index_loop.simps [of _ _ _ "length xs" i] d t split: option.splits)
qed

lemma index_loop_range: "index_loop enc b xs (length xs) 0 = range_loop enc b xs"
  using index_loop_drop [of 0 xs enc b] by simp

text \<open>
  Claim C7. An untyped nil argument yields the buffer with exactly the Nil byte appended
  and no error. A value that has the \<^verbatim>\<open>Marshaler\<close> capability yields exactly what its
  own \<^verbatim>\<open>MarshalMsg\<close> returns for the buffer, the error (or panic) included, whether or
  not it also has the \<^verbatim>\<open>Extension\<close> capability and whatever its concrete shape is.
\<close>

theorem AppendIntf_nil_Marshaler:
  "AppendIntf grow b VNil = Some (AppendNil grow b, None)
   \<and> elems (AppendNil grow b) = elems b @ [mnil]
   \<and> AppendIntf grow b (Iface (Some m) e s) = m b"
  by (simp add: AppendNil_def elems_append_byte)

theorem AppendIntf_nil_Marshaler_witness:
  "AppendIntf (\<lambda>n. n) nil_slice VNil = Some (\<lparr>elems = [0xc0], spare = []\<rparr>, None)
   \<and> AppendIntf (\<lambda>n. n) nil_slice
        (Iface (Some (\<lambda>b. Some (b\<lparr>elems := elems b @ [1]\<rparr>, Some (ErrExternal ''boom''))))
               (Some (\<lambda>b. Some (b, None))) (SBool True))
       = Some (\<lparr>elems = [1], spare = []\<rparr>, Some (ErrExternal ''boom''))"
  using AppendIntf_nil_Marshaler [of "\<lambda>n. n" nil_slice
      "\<lambda>b. Some (b\<lparr>elems := elems b @ [1]\<rparr>, Some (ErrExternal ''boom''))"
      "Some (\<lambda>b. Some (b, None))" "SBool True"]
  by (simp add: AppendNil_def append_byte_def nil_slice_def mnil_def slice_len_def)

text \<open>
  Claim C10. A pointer whose type has neither capability fails with
  \<^verbatim>\<open>ErrUnsupportedType\<close> naming the pointer type, whatever it points to, and the buffer
  comes back as it was: no case of the dispatch dereferences a pointer.
\<close>

theorem AppendIntf_pointer_unsupported:
  "AppendIntf grow b (Iface None None (SPtr T v)) = Some (b, Some (ErrUnsupportedType T))"
  by simp

theorem AppendIntf_pointer_unsupported_witness:
  "AppendIntf (\<lambda>n. n) nil_slice
     (Iface None None (SPtr (TPtr (TNamed ''int'')) (Iface None None (SInt 5))))
   = Some (nil_slice, Some (ErrUnsupportedType (TPtr (TNamed ''int''))))
   \<and> AppendIntf (\<lambda>n. n) nil_slice (Iface None None (SInt 5))
   = Some (\<lparr>elems = [5], spare = []\<rparr>, None)"
  using AppendIntf_pointer_unsupported [of "\<lambda>n. n" nil_slice "TPtr (TNamed ''int'')"
      "Iface None None (SInt 5)"]
  by (simp add: ok_def AppendInt64_def word_sle_eq wfixint_def append_byte_def nil_slice_def
      slice_len_def)

text \<open>
  Claim C8. A value that reaches the introspection fallback as an array or slice and a
  \<^verbatim>\<open>[]interface{}\<close> holding the same elements in the same order have the same outcome
  for every buffer: the same bytes, the same error on a failing element, the same
  panic.
\<close>

theorem AppendIntf_fallback_eq_slice:
  "AppendIntf grow b (Iface None None (SSeq T xs))
   = AppendIntf grow b (Iface None None (SSliceIntf xs))"
  by (simp add: Let_def index_loop_range split: option.splits)

theorem AppendIntf_fallback_eq_slice_witness:
  "AppendIntf (\<lambda>n. n) nil_slice
     (Iface None None (SSeq (TSlice (TNamed ''T'')) [Iface None None (SInt 1),
        Iface None None (SOther (TChan (TNamed ''int''))), Iface None None (SInt 2)]))
   = Some (\<lparr>elems = [0x93, 1], spare = [0, 0, 0, 0, 0, 0]\<rparr>,
       Some (ErrUnsupportedType (TChan (TNamed ''int''))))"
proof -
  have "AppendIntf (\<lambda>n. n) nil_slice
     (Iface None None (SSliceIntf [Iface None None (SInt 1),
        Iface None None (SOther (TChan (TNamed ''int''))), Iface None None (SInt 2)]))
   = Some (\<lparr>elems = [0x93, 1], spare = [0, 0, 0, 0, 0, 0]\<rparr>,
       Some (ErrUnsupportedType (TChan (TNamed ''int''))))"
    by code_simp
  then show ?thesis
    by (simp only: AppendIntf_fallback_eq_slice)
qed

section \<open>Integers\<close>

lemma appends_Some [simp]: "appends (Some ob) b enc \<longleftrightarrow> elems ob = elems b @ enc"
  by (simp add: appends_def)

lemma appendsE:
  assumes "appends r b enc"
  obtains ob where "r = Some ob" "elems ob = elems b @ enc"
  using assms by (auto simp: appends_def split: option.splits)

lemma appends_store:
  assumes "0 \<le> sz" and "length bs = nat sz"
  shows "appends (ensure b sz \<bind> (\<lambda>(ob, n). put ob n bs)) b bs"
  using store_full [OF assms, of b] by auto

lemma length_be16 [simp]: "length (be16 w) = 2"
  by (simp add: be16_def)

lemma length_be32 [simp]: "length (be32 w) = 4"
  by (simp add: be32_def)

lemma length_be64 [simp]: "length (be64 w) = 8"
  by (simp add: be64_def)

lemma AppendInt64_appends: "appends (AppendInt64 grow b i) b (int64_enc i)"
  by (simp add: AppendInt64_def int64_enc_def elems_append_byte appends_store
      putMint8_def putMint16_def putMint32_def putMint64_def)




text \<open>
  Claim C1, at its boundary. \<^verbatim>\<open>AppendInt64\<close> tests \<^verbatim>\<open>i >= -31\<close> for the negative fixint,
  so -32 falls through to the int8 case and takes two bytes, the int8 tag and \<open>0xe0\<close>,
  as -33 does (\<open>0xdf\<close>); -31 is the one-byte negative fixint \<open>0xe1\<close>.
\<close>

theorem AppendInt64_minus_32:
  "appends (AppendInt64 grow b (- 32)) b [mint8, 0xe0]
   \<and> appends (AppendInt64 grow b (- 33)) b [mint8, 0xdf]
   \<and> appends (AppendInt64 grow b (- 31)) b [0xe1]"
proof -
  have "int64_enc (- 32) = [mint8, ucast (- 32 :: 64 word)]"
    by (simp add: int64_enc_def word_sle_eq)
  moreover have "(ucast (- 32 :: 64 word) :: byte) = 0xe0"
    by simp
  ultimately have a: "int64_enc (- 32) = [mint8, 0xe0]"
    by (simp only:)
  have "int64_enc (- 33) = [mint8, ucast (- 33 :: 64 word)]"
    by (simp add: int64_enc_def word_sle_eq)
  moreover have "(ucast (- 33 :: 64 word) :: byte) = 0xdf"
    by simp
  ultimately have b: "int64_enc (- 33) = [mint8, 0xdf]"
    by (simp only:)
  have "int64_enc (- 31) = [wnfixint (ucast (- 31 :: 64 word))]"
    by (simp add: int64_enc_def word_sle_eq)
  moreover have "wnfixint (ucast (- 31 :: 64 word)) = 0xe1"
    by (simp add: wnfixint_def mnfixint_def)
  ultimately have c: "int64_enc (- 31) = [0xe1]"
    by (simp only:)
  show ?thesis
    using AppendInt64_appends [of grow b "- 32"] AppendInt64_appends [of grow b "- 33"]
      AppendInt64_appends [of grow b "- 31"]
    by (simp only: a b c simp_thms)
qed





section \<open>Timestamps\<close>

lemma put_append:
  "put ob n (bs @ cs) = put ob n bs \<bind> (\<lambda>ob1. put ob1 (n + length bs) cs)"
proof (cases "n + length bs + length cs \<le> length (elems ob)")
  case True
  then have "take (n + length bs) (take n (elems ob) @ bs @ drop (n + length bs) (elems ob))
      = take n (elems ob) @ bs"
    by simp
  moreover have "drop (n + length bs + length cs)
        (take n (elems ob) @ bs @ drop (n + length bs) (elems ob))
      = drop (n + length bs + length cs) (elems ob)"
    using True by (simp add: add.commute add.left_commute)
  ultimately show ?thesis
    using True by (simp add: put_def slice_len_def add.assoc)
next
  case False
  then show ?thesis
    by (simp add: put_def slice_len_def add.assoc)
qed

lemma put_Cons:
  "put ob n (x # cs) = put ob n [x] \<bind> (\<lambda>ob1. put ob1 (n + 1) cs)"
  using put_append [of ob n "[x]" cs] by simp

lemma AppendTime_eq:
  "AppendTime b t = ensure b TimeSize \<bind> (\<lambda>(ob, n). put ob n (time_enc t))"
  by (simp add: AppendTime_def Let_def putUnix_def to_UTC_def Unix_def Nanosecond_def
      time_enc_def split_def put_Cons [of _ _ _ "_ # _"] put_Cons [of _ _ _ "be64 _ @ _"]
      numeral_3_eq_3)

lemma AppendTime_appends: "appends (AppendTime b t) b (time_enc t)"
  unfolding AppendTime_eq
  by (rule appends_store) (simp_all add: TimeSize_def time_enc_def)

text \<open>The byte lists \<open>be16\<close>, \<open>be32\<close> and \<open>be64\<close> are big-endian.\<close>

lemma div_mod_256: "(y div 256) * 256 + y mod 256 = (y :: nat)"
  by simp

lemma unat_byte: "unat (ucast (drop_bit k w) :: byte) = unat w div 2 ^ k mod 256"
  for w :: "'a::len word"
  unfolding unsigned_ucast_eq unat_drop_bit_eq
  by (simp add: take_bit_eq_mod drop_bit_eq_div)

lemma unat_byte0: "unat (ucast w :: byte) = unat w mod 256"
  for w :: "'a::len word"
  by (simp add: unsigned_ucast_eq take_bit_eq_mod)

lemma be_value_be16: "be_value (be16 w) = unat w"
proof -
  have "unat w < 2 ^ 16"
    using unsigned_less [of w, where ?'a = nat] by simp
  then have a: "unat w div 2 ^ 8 mod 256 = unat w div 2 ^ 8"
    by simp
  have d: "unat w div 2 ^ 8 * 256 + unat w mod 256 = unat w"
    using div_mod_256 [of "unat w"] by simp
  show ?thesis
    unfolding be_value_def be16_def foldl.simps unat_byte
    by (simp only: unat_byte0 a d mult_zero_left add_0)
qed

lemma be_value_be32: "be_value (be32 w) = unat w"
proof -
  define x where "x = unat w"
  have "x < 2 ^ 32"
    using unsigned_less [of w, where ?'a = nat] by (simp add: x_def)
  then have a: "x div 2 ^ 24 mod 256 = x div 2 ^ 24"
    by simp
  have b: "x div 2 ^ 24 * 256 + x div 2 ^ 16 mod 256 = x div 2 ^ 16"
    using div_mod_256 [of "x div 2 ^ 16"] by (simp add: div_mult2_eq [symmetric])
  have c: "x div 2 ^ 16 * 256 + x div 2 ^ 8 mod 256 = x div 2 ^ 8"
    using div_mod_256 [of "x div 2 ^ 8"] by (simp add: div_mult2_eq [symmetric])
  have d: "x div 2 ^ 8 * 256 + x mod 256 = x"
    using div_mod_256 [of x] by simp
  show ?thesis
    unfolding be_value_def be32_def foldl.simps unat_byte
    by (simp only: unat_byte0 x_def [symmetric] a b c d mult_zero_left add_0)
qed

lemma be_value_be64: "be_value (be64 w) = unat w"
proof -
  define x where "x = unat w"
  have "x < 2 ^ 64"
    using unsigned_less [of w, where ?'a = nat] by (simp add: x_def)
  then have a: "x div 2 ^ 56 mod 256 = x div 2 ^ 56"
    by simp
  have b: "x div 2 ^ 56 * 256 + x div 2 ^ 48 mod 256 = x div 2 ^ 48"
    using div_mod_256 [of "x div 2 ^ 48"] by (simp add: div_mult2_eq [symmetric])
  have c: "x div 2 ^ 48 * 256 + x div 2 ^ 40 mod 256 = x div 2 ^ 40"
    using div_mod_256 [of "x div 2 ^ 40"] by (simp add: div_mult2_eq [symmetric])
  have d: "x div 2 ^ 40 * 256 + x div 2 ^ 32 mod 256 = x div 2 ^ 32"
    using div_mod_256 [of "x div 2 ^ 32"] by (simp add: div_mult2_eq [symmetric])
  have e: "x div 2 ^ 32 * 256 + x div 2 ^ 24 mod 256 = x div 2 ^ 24"
    using div_mod_256 [of "x div 2 ^ 24"] by (simp add: div_mult2_eq [symmetric])
  have f: "x div 2 ^ 24 * 256 + x div 2 ^ 16 mod 256 = x div 2 ^ 16"
    using div_mod_256 [of "x div 2 ^ 16"] by (simp add: div_mult2_eq [symmetric])
  have g: "x div 2 ^ 16 * 256 + x div 2 ^ 8 mod 256 = x div 2 ^ 8"
    using div_mod_256 [of "x div 2 ^ 8"] by (simp add: div_mult2_eq [symmetric])
  have h: "x div 2 ^ 8 * 256 + x mod 256 = x"
    using div_mod_256 [of x] by simp
  show ?thesis
    unfolding be_value_def be64_def foldl.simps unat_byte
    by (simp only: unat_byte0 x_def [symmetric] a b c d e f g h mult_zero_left add_0)
qed

text \<open>
  Claim C5. \<^verbatim>\<open>AppendTime\<close> appends exactly 15 bytes: the ext8 tag, the length byte 12,
  the Time type code, the 8 bytes of the Unix seconds and the 4 bytes of the nanoseconds,
  each big-endian (the seconds as the two's complement of the signed count). Two times
  that denote the same instant under different locations give the same result.
\<close>

theorem AppendTime_layout:
  "appends (AppendTime b t) b
     ([mext8, 12, TimeExtension] @ be64 (Unix t) @ be32 (word_of_int (Nanosecond t)))
   \<and> length ([mext8, 12, TimeExtension] @ be64 (Unix t) @ be32 (word_of_int (Nanosecond t)))
       = 15
   \<and> be_value (be64 (Unix t)) = unat (Unix t)
   \<and> be_value (be32 (word_of_int (Nanosecond t))) = unat (word_of_int (Nanosecond t) :: 32 word)
   \<and> (same_instant t t' \<longrightarrow> AppendTime b t = AppendTime b t')"
proof -
  have "same_instant t t' \<longrightarrow> time_enc t = time_enc t'"
    by (simp add: same_instant_def time_enc_def Unix_def Nanosecond_def)
  then have "same_instant t t' \<longrightarrow> AppendTime b t = AppendTime b t'"
    by (simp add: AppendTime_eq)
  then show ?thesis
    using AppendTime_appends [of b t]
    by (simp add: time_enc_def be_value_be64 be_value_be32)
qed

theorem AppendTime_layout_witness:
  "same_instant \<lparr>unix_sec = 258, nsec = 7, loc = UTC\<rparr>
     \<lparr>unix_sec = 258, nsec = 7, loc = FixedZone ''CET'' 3600\<rparr>
   \<and> AppendTime nil_slice \<lparr>unix_sec = 258, nsec = 7, loc = FixedZone ''CET'' 3600\<rparr>
     = Some \<lparr>elems = [0xc7, 12, 5, 0, 0, 0, 0, 0, 0, 1, 2, 0, 0, 0, 7], spare = []\<rparr>
   \<and> AppendTime nil_slice \<lparr>unix_sec = 258, nsec = 7, loc = UTC\<rparr>
     = Some \<lparr>elems = [0xc7, 12, 5, 0, 0, 0, 0, 0, 0, 1, 2, 0, 0, 0, 7], spare = []\<rparr>"
proof -
  have s: "same_instant \<lparr>unix_sec = 258, nsec = 7, loc = UTC\<rparr>
     \<lparr>unix_sec = 258, nsec = 7, loc = FixedZone ''CET'' 3600\<rparr>"
    by (simp add: same_instant_def)
  have "AppendTime nil_slice \<lparr>unix_sec = 258, nsec = 7, loc = FixedZone ''CET'' 3600\<rparr>
     = Some \<lparr>elems = [0xc7, 12, 5, 0, 0, 0, 0, 0, 0, 1, 2, 0, 0, 0, 7], spare = []\<rparr>"
    by code_simp
  with s show ?thesis
    using AppendTime_layout [of nil_slice "\<lparr>unix_sec = 258, nsec = 7, loc = UTC\<rparr>"
        "\<lparr>unix_sec = 258, nsec = 7, loc = FixedZone ''CET'' 3600\<rparr>"]
    by simp
qed

section \<open>Strings and binary blobs\<close>

lemma copy_at_fits:
  "k + length s \<le> length e \<Longrightarrow>
   copy_at \<lparr>elems = e, spare = r\<rparr> k s
     = Some (\<lparr>elems = take k e @ s @ drop (k + length s) e, spare = r\<rparr>, length s)"
  by (auto simp: copy_at_def slice_len_def Let_def min_def)

lemma reslice_3:
  "int (length a + length c + length d) = j \<Longrightarrow>
   reslice \<lparr>elems = a @ c @ d @ ys, spare = r\<rparr> j
     = Some \<lparr>elems = a @ c @ d, spare = ys @ r\<rparr>"
  by (auto simp: reslice_def slice_cap_def)

lemma hdr_payload_appends:
  assumes hb: "length hb \<le> 5 + length s" and k: "k \<le> length hb" "k \<le> 5"
  shows "appends (hdr_payload b hb k s) b (take k hb @ s)"
proof -
  obtain fresh rest where
    e: "ensure b (5 + int (length s)) = Some (\<lparr>elems = elems b @ fresh, spare = rest\<rparr>, slice_len b)"
    and l: "length fresh = nat (5 + int (length s))"
    by (rule ensure_obtain [of "5 + int (length s)" b]) simp
  have lf: "length fresh = 5 + length s"
    using l by simp
  let ?n = "length (elems b)"
  let ?e1 = "elems b @ hb @ drop (length hb) fresh"
  have a: "elem_addr \<lparr>elems = elems b @ fresh, spare = rest\<rparr> ?n = Some ?n"
    using lf by (simp add: elem_addr_def slice_len_def)
  have p: "put \<lparr>elems = elems b @ fresh, spare = rest\<rparr> ?n hb
      = Some \<lparr>elems = ?e1, spare = rest\<rparr>"
    using hb lf by (simp add: put_fresh)
  have len1: "length ?e1 = ?n + 5 + length s"
    using hb lf by simp
  have t: "take (?n + k) ?e1 = elems b @ take k hb"
    using k by simp
  have m: "min (length ?e1 - (?n + k)) (length s) = length s"
    using len1 k by simp
  let ?e2 = "elems b @ take k hb @ s @ drop (?n + k + length s) ?e1"
  have c: "copy_at \<lparr>elems = ?e1, spare = rest\<rparr> (?n + k) s
      = Some (\<lparr>elems = ?e2, spare = rest\<rparr>, length s)"
    using copy_at_fits [of "?n + k" s ?e1 rest] len1 k
    by (simp only: t append_assoc)
  show ?thesis
    using k by (simp add: hdr_payload_def e slice_len_def a p c reslice_3)
qed

lemma strHdr_fits:
  "0 \<le> sz \<Longrightarrow> length (fst (strHdr sz)) \<le> 5 + nat sz
     \<and> snd (strHdr sz) \<le> length (fst (strHdr sz)) \<and> snd (strHdr sz) \<le> 5"
  by (auto simp: strHdr_def wide_hdr_def)

lemma binHdr_fits:
  "0 \<le> sz \<Longrightarrow> length (fst (binHdr sz)) \<le> 5 + nat sz
     \<and> snd (binHdr sz) \<le> length (fst (binHdr sz)) \<and> snd (binHdr sz) \<le> 5"
  by (auto simp: binHdr_def wide_hdr_def)

lemma AppendString_eq:
  "AppendString b s
     = hdr_payload b (fst (strHdr (int (length s)))) (snd (strHdr (int (length s)))) s"
  by (simp add: AppendString_def hdr_payload_def putStrHdr_def Let_def split_def
      bind_map_option o_def)

lemma AppendStringFromBytes_eq: "AppendStringFromBytes b s = AppendString b s"
  by (simp add: AppendString_def AppendStringFromBytes_def)

lemma AppendBytes_eq:
  "AppendBytes b s
     = hdr_payload b (fst (binHdr (int (length s)))) (snd (binHdr (int (length s)))) s"
  by (simp add: AppendBytes_def hdr_payload_def putBinHdr_def Let_def split_def
      bind_map_option o_def)

lemma AppendString_appends: "appends (AppendString b s) b (str_enc s)"
  unfolding AppendString_eq str_enc_def
  using strHdr_fits [of "int (length s)"] by (intro hdr_payload_appends) simp_all

lemma AppendBytes_appends: "appends (AppendBytes b s) b (bin_enc s)"
  unfolding AppendBytes_eq bin_enc_def
  using binHdr_fits [of "int (length s)"] by (intro hdr_payload_appends) simp_all

text \<open>
  Claim C9. \<^verbatim>\<open>AppendString\<close>, \<^verbatim>\<open>AppendStringFromBytes\<close> and \<^verbatim>\<open>AppendBytes\<close> reserve
  \<open>5 + sz\<close> bytes after the offset \<open>n\<close>. The header store fits in them, the 8-byte
  store of the 32-bit header included, which occurs only for \<open>sz > 65535\<close>; the copy of
  the payload after the header fits too; and no step of the three functions fails.
\<close>

theorem string_stores_in_bounds:
  "(\<exists>ob n. ensure b (5 + int (length s)) = Some (ob, n)
       \<and> slice_len ob = n + (5 + length s)
       \<and> n + length (fst (strHdr (int (length s)))) \<le> slice_len ob
       \<and> n + length (fst (binHdr (int (length s)))) \<le> slice_len ob
       \<and> n + snd (strHdr (int (length s))) + length s \<le> slice_len ob
       \<and> n + snd (binHdr (int (length s))) + length s \<le> slice_len ob)
   \<and> (length (fst (strHdr (int (length s)))) = 8 \<longleftrightarrow> 65535 < length s)
   \<and> (length (fst (binHdr (int (length s)))) = 8 \<longleftrightarrow> 65535 < length s)
   \<and> length (fst (strHdr (int (length s)))) \<in> {1, 2, 3, 8}
   \<and> length (fst (binHdr (int (length s)))) \<in> {3, 8}
   \<and> AppendString b s \<noteq> None
   \<and> AppendStringFromBytes b s \<noteq> None
   \<and> AppendBytes b s \<noteq> None"
proof -
  obtain fresh rest where
    e: "ensure b (5 + int (length s)) = Some (\<lparr>elems = elems b @ fresh, spare = rest\<rparr>, slice_len b)"
    and l: "length fresh = nat (5 + int (length s))"
    by (rule ensure_obtain [of "5 + int (length s)" b]) simp
  have 1: "\<exists>ob n. ensure b (5 + int (length s)) = Some (ob, n)
       \<and> slice_len ob = n + (5 + length s)
       \<and> n + length (fst (strHdr (int (length s)))) \<le> slice_len ob
       \<and> n + length (fst (binHdr (int (length s)))) \<le> slice_len ob
       \<and> n + snd (strHdr (int (length s))) + length s \<le> slice_len ob
       \<and> n + snd (binHdr (int (length s))) + length s \<le> slice_len ob"
  proof -
    have lf: "length fresh = 5 + length s"
      using l by simp
    show ?thesis
      using strHdr_fits [of "int (length s)"] binHdr_fits [of "int (length s)"]
      by (simp add: e slice_len_def lf)
  qed
  have 2: "(length (fst (strHdr (int (length s)))) = 8 \<longleftrightarrow> 65535 < length s)"
    "(length (fst (binHdr (int (length s)))) = 8 \<longleftrightarrow> 65535 < length s)"
    "length (fst (strHdr (int (length s)))) \<in> {1, 2, 3, 8}"
    "length (fst (binHdr (int (length s)))) \<in> {3, 8}"
    by (simp_all add: strHdr_def binHdr_def wide_hdr_def)
  have 3: "AppendString b s \<noteq> None" "AppendStringFromBytes b s \<noteq> None"
    "AppendBytes b s \<noteq> None"
    using AppendString_appends [of b s] AppendBytes_appends [of b s]
    by (auto simp: AppendStringFromBytes_eq appends_def split: option.splits)
  from 1 2 3 show ?thesis
    by blast
qed

theorem string_stores_in_bounds_witness:
  "AppendString nil_slice [0x68, 0x69] = Some \<lparr>elems = [0xa2, 0x68, 0x69], spare = [0, 0, 0, 0]\<rparr>
   \<and> AppendString nil_slice [0x68, 0x69] \<noteq> None"
proof -
  have "AppendString nil_slice [0x68, 0x69]
      = Some \<lparr>elems = [0xa2, 0x68, 0x69], spare = [0, 0, 0, 0]\<rparr>"
    by code_simp
  then show ?thesis
    using string_stores_in_bounds [of nil_slice "[0x68, 0x69]"] by simp
qed

section \<open>Every encoder appends\<close>









lemma reslice_2:
  "int (length a + length c) = j \<Longrightarrow>
   reslice \<lparr>elems = a @ c @ ys, spare = r\<rparr> j = Some \<lparr>elems = a @ c, spare = ys @ r\<rparr>"
  by (auto simp: reslice_def slice_cap_def)








section \<open>The dynamic dispatcher extends and fails locally\<close>

lemma extension_iff:
  "take (slice_len b) (elems ob) = elems b
     \<and> slice_len ob = slice_len b + length enc
     \<and> drop (slice_len b) (elems ob) = enc
   \<longleftrightarrow> elems ob = elems b @ enc"
proof
  assume a: "take (slice_len b) (elems ob) = elems b
     \<and> slice_len ob = slice_len b + length enc
     \<and> drop (slice_len b) (elems ob) = enc"
  then have "take (slice_len b) (elems ob) @ drop (slice_len b) (elems ob) = elems b @ enc"
    by (simp only:)
  then show "elems ob = elems b @ enc"
    by (simp only: append_take_drop_id)
next
  assume "elems ob = elems b @ enc"
  then show "take (slice_len b) (elems ob) = elems b
     \<and> slice_len ob = slice_len b + length enc
     \<and> drop (slice_len b) (elems ob) = enc"
    by (simp add: slice_len_def)
qed


lemma pure_extension_iff:
  "pure_extension f \<longleftrightarrow> (\<exists>enc. \<forall>b. \<exists>ob. f b = Some ob \<and> elems ob = elems b @ enc)"
  by (simp only: pure_extension_def extension_iff)

lemma pure_extensionI:
  assumes "\<And>b. appends (f b) b enc"
  shows "pure_extension f"
  unfolding pure_extension_iff
proof (intro exI [of _ enc] allI)
  fix b
  from assms [of b] show "\<exists>ob. f b = Some ob \<and> elems ob = elems b @ enc"
    by (auto elim: appendsE)
qed




lemma AppendString_pure: "pure_extension (\<lambda>b. AppendString b s)"
  by (rule pure_extensionI) (rule AppendString_appends)


























end
